theory Spec2Isabelle
  imports Complex_Main
begin

section \<open>Sparse polynomials: the two Python modules\<close>

text \<open>
  The repository holds two modules, each with a class \<open>SparsePolynomial\<close>:
  \<^verbatim>\<open>with_2d_list.py\<close> keeps \<open>self.terms\<close> as a list of \<open>[coefficient, exponent]\<close>
  pairs, \<^verbatim>\<open>with_dict.py\<close> keeps it as a dict from exponent to coefficient.
  Every definition below carries the suffix \<open>_list\<close> or \<open>_dict\<close> of the module
  it is taken from.

  Coefficients are Python floats; they are modelled as real numbers, so rounding,
  infinities and NaN are outside the model. The one float operation of the two modules
  that raises, a power beyond the float range, is in the model (\<open>py_pow\<close>). Exponents are the non-negative integers the
  parser produces. Strings are lists of characters with code points below 256.
  Methods that mutate \<open>self.terms\<close> take the old value and return the new one; an
  exception is the \<open>Inl\<close> branch of a sum.
\<close>

datatype error = TypeError | ValueError | KeyError nat | IndexError | OverflowError

type_synonym list_terms = "(real \<times> nat) list"

type_synonym dict_terms = "(nat \<times> real) list"

subsection \<open>Python list and dict primitives\<close>

text \<open>
  \<open>xs[i]\<close>: a negative index counts from the end, an index out of range raises
  IndexError. The result is the position that is read or written.
\<close>

definition py_index :: "'a list \<Rightarrow> int \<Rightarrow> error + nat" where
  "py_index xs i =
     (let n = int (length xs); j = (if i < 0 then n + i else i)
      in if 0 \<le> j \<and> j < n then Inr (nat j) else Inl IndexError)"

text \<open>\<open>xs.insert(i, x)\<close>: the index is clipped to the list, it never raises.\<close>

definition py_insert :: "'a list \<Rightarrow> int \<Rightarrow> 'a \<Rightarrow> 'a list" where
  "py_insert xs i x =
     (let n = int (length xs); j = (if i < 0 then max 0 (n + i) else min i n)
      in take (nat j) xs @ x # drop (nat j) xs)"

text \<open>
  A dict is an association list in insertion order: assigning to a key that is present
  replaces its value in place, assigning to a new key appends the item.
\<close>

fun dict_set :: "dict_terms \<Rightarrow> nat \<Rightarrow> real \<Rightarrow> dict_terms" where
  "dict_set [] k v = [(k, v)]"
| "dict_set ((k', v') # d) k v =
     (if k' = k then (k, v) # d else (k', v') # dict_set d k v)"

definition dict_get :: "dict_terms \<Rightarrow> nat \<Rightarrow> error + real" where
  "dict_get d k = (case map_of d k of None \<Rightarrow> Inl (KeyError k) | Some v \<Rightarrow> Inr v)"

definition dict_contains :: "dict_terms \<Rightarrow> nat \<Rightarrow> bool" where
  "dict_contains d k = (k \<in> fst ` set d)"

subsection \<open>\<open>add_term\<close>\<close>

text \<open>
  with_2d_list.py, \<open>add_term\<close>: the \<open>while left <= right\<close> loop. Its \<open>break\<close>
  branch returns the updated list, its \<open>else\<close> clause inserts at \<open>left\<close>.
\<close>

function add_term_loop :: "list_terms \<Rightarrow> real \<Rightarrow> nat \<Rightarrow> int \<Rightarrow> int \<Rightarrow> error + list_terms" where
  "add_term_loop terms coefficient exponent left right =
     (if left \<le> right then
        (let mid = (left + right) div 2 in
         case py_index terms mid of
           Inl err \<Rightarrow> Inl err
         | Inr k \<Rightarrow>
             if snd (terms ! k) = exponent then
               Inr (terms[k := (fst (terms ! k) + coefficient, snd (terms ! k))])
             else if snd (terms ! k) < exponent then
               add_term_loop terms coefficient exponent (mid + 1) right
             else
               add_term_loop terms coefficient exponent left (mid - 1))
      else Inr (py_insert terms left (coefficient, exponent)))"
  by pat_completeness auto
termination
  by (relation "measure (\<lambda>(terms, coefficient, exponent, left, right). nat (right - left + 1))")
     auto

declare add_term_loop.simps [simp del]

definition add_term_list :: "list_terms \<Rightarrow> real \<Rightarrow> nat \<Rightarrow> error + list_terms" where
  "add_term_list terms coefficient exponent =
     (if coefficient \<noteq> 0 then
        add_term_loop terms coefficient exponent 0 (int (length terms) - 1)
      else Inr terms)"

text \<open>with_dict.py, \<open>add_term\<close>.\<close>

definition add_term_dict :: "dict_terms \<Rightarrow> real \<Rightarrow> nat \<Rightarrow> error + dict_terms" where
  "add_term_dict terms coefficient exponent =
     (if coefficient \<noteq> 0 then
        (if dict_contains terms exponent then
           (case dict_get terms exponent of
              Inl err \<Rightarrow> Inl err
            | Inr v \<Rightarrow> Inr (dict_set terms exponent (v + coefficient)))
         else Inr (dict_set terms exponent coefficient))
      else Inr terms)"

subsection \<open>\<open>find_coefficient\<close>\<close>

function find_coefficient_loop :: "list_terms \<Rightarrow> nat \<Rightarrow> int \<Rightarrow> int \<Rightarrow> error + real" where
  "find_coefficient_loop terms n left right =
     (if left \<le> right then
        (let mid = (left + right) div 2 in
         case py_index terms mid of
           Inl err \<Rightarrow> Inl err
         | Inr k \<Rightarrow>
             if snd (terms ! k) = n then Inr (fst (terms ! k))
             else if snd (terms ! k) < n then find_coefficient_loop terms n (mid + 1) right
             else find_coefficient_loop terms n left (mid - 1))
      else Inr 0)"
  by pat_completeness auto
termination
  by (relation "measure (\<lambda>(terms, n, left, right). nat (right - left + 1))") auto

declare find_coefficient_loop.simps [simp del]

definition find_coefficient_list :: "list_terms \<Rightarrow> nat \<Rightarrow> error + real" where
  "find_coefficient_list terms n = find_coefficient_loop terms n 0 (int (length terms) - 1)"

definition find_coefficient_dict :: "dict_terms \<Rightarrow> nat \<Rightarrow> error + real" where
  "find_coefficient_dict terms n = dict_get terms n"

subsection \<open>\<open>evaluate\<close>\<close>







subsection \<open>\<open>__add__\<close>\<close>

text \<open>
  The values \<open>__add__\<close> can receive as \<open>other\<close>: a \<open>SparsePolynomial\<close> of
  with_2d_list.py, one of with_dict.py, a plain list of terms, or any other value.
  \<open>isinstance(other, SparsePolynomial)\<close> holds for the module's own class only.
\<close>

datatype pyval = ListPoly list_terms | DictPoly dict_terms | PyList list_terms | PyOther

text \<open>
  with_2d_list.py, \<open>__add__\<close>: the loop \<open>while i < len(self.terms) and j < len(other.terms)\<close>,
  returning \<open>result.terms\<close> and the two cursors as the loop leaves them.
\<close>

function merge_loop ::
  "list_terms \<Rightarrow> list_terms \<Rightarrow> list_terms \<Rightarrow> nat \<Rightarrow> nat \<Rightarrow> error + (list_terms \<times> nat \<times> nat)" where
  "merge_loop self other result i j =
     (if i < length self \<and> j < length other then
        (let (coeff1, exp1) = self ! i; (coeff2, exp2) = other ! j in
         if exp1 = exp2 then
           (case add_term_list result (coeff1 + coeff2) exp1 of
              Inl err \<Rightarrow> Inl err
            | Inr result' \<Rightarrow> merge_loop self other result' (i + 1) (j + 1))
         else if exp1 < exp2 then
           (case add_term_list result coeff1 exp1 of
              Inl err \<Rightarrow> Inl err
            | Inr result' \<Rightarrow> merge_loop self other result' (i + 1) j)
         else
           (case add_term_list result coeff2 exp2 of
              Inl err \<Rightarrow> Inl err
            | Inr result' \<Rightarrow> merge_loop self other result' i (j + 1)))
      else Inr (result, i, j))"
  by pat_completeness auto
termination
  by (relation "measure (\<lambda>(self, other, result, i, j). (length self - i) + (length other - j))")
     auto

declare merge_loop.simps [simp del]

text \<open>
  After the loop comes \<open>result += self.terms[i:] + other.terms[j:]\<close>. The class defines
  no \<open>__iadd__\<close>, so the statement is \<open>result = result.__add__(self.terms[i:] + other.terms[j:])\<close>:
  a second call of \<open>__add__\<close>, whose \<open>other\<close> is a plain list.
\<close>

function add_list :: "list_terms \<Rightarrow> pyval \<Rightarrow> error + list_terms" where
  "add_list self other =
     (case other of
        ListPoly other_terms \<Rightarrow>
          (case merge_loop self other_terms [] 0 0 of
             Inl err \<Rightarrow> Inl err
           | Inr (result, i, j) \<Rightarrow>
               add_list result (PyList (drop i self @ drop j other_terms)))
      | _ \<Rightarrow> Inl TypeError)"
  by pat_completeness auto
termination
  by (relation "measure (\<lambda>(self, other). case other of ListPoly _ \<Rightarrow> 1 | _ \<Rightarrow> 0)") auto

declare add_list.simps [simp del]

text \<open>with_dict.py, \<open>__add__\<close>: each \<open>for exponent, coefficient in d.items()\<close> loop.\<close>

fun add_items_dict :: "dict_terms \<Rightarrow> dict_terms \<Rightarrow> error + dict_terms" where
  "add_items_dict result [] = Inr result"
| "add_items_dict result ((exponent, coefficient) # items) =
     (case add_term_dict result coefficient exponent of
        Inl err \<Rightarrow> Inl err
      | Inr result' \<Rightarrow> add_items_dict result' items)"

definition add_dict :: "dict_terms \<Rightarrow> pyval \<Rightarrow> error + dict_terms" where
  "add_dict self other =
     (case other of
        DictPoly other_terms \<Rightarrow>
          (case add_items_dict [] self of
             Inl err \<Rightarrow> Inl err
           | Inr result \<Rightarrow> add_items_dict result other_terms)
      | _ \<Rightarrow> Inl TypeError)"

subsection \<open>Parsing\<close>

definition is_digit :: "char \<Rightarrow> bool" where
  "is_digit c = (c \<in> set ''0123456789'')"

definition is_sign :: "char \<Rightarrow> bool" where
  "is_sign c = (c = CHR ''-'' \<or> c = CHR ''+'')"

text \<open>The characters below 256 that \<open>str.strip()\<close> removes.\<close>

definition is_space :: "char \<Rightarrow> bool" where
  "is_space c = ((of_char c :: nat) \<in> set [9, 10, 11, 12, 13, 28, 29, 30, 31, 32, 133, 160])"

definition py_strip :: "string \<Rightarrow> string" where
  "py_strip s = rev (dropWhile is_space (rev (dropWhile is_space s)))"

definition nat_of_digits :: "string \<Rightarrow> nat" where
  "nat_of_digits ds = foldl (\<lambda>n c. 10 * n + (of_char c - 48)) 0 ds"

text \<open>
  \<open>int(s)\<close>, for the strings its one call site passes: a non-empty run of digits
  (group 2 of the pattern).
\<close>

definition py_int :: "string \<Rightarrow> error + nat" where
  "py_int s = (if s \<noteq> [] \<and> list_all is_digit s then Inr (nat_of_digits s) else Inl ValueError)"

text \<open>
  \<open>float(s)\<close> on plain decimal spellings: an optional sign, then digits with an optional
  point and fraction digits, or a point followed by digits. Any other string is a
  ValueError here; Python also reads an exponent part, underscores between digits and
  the names of infinity and NaN, which are left out of the model.
\<close>

definition py_float :: "string \<Rightarrow> error + real" where
  "py_float s =
     (let (neg, r) =
            (case s of
               c # cs \<Rightarrow> if c = CHR ''-'' then (True, cs)
                         else if c = CHR ''+'' then (False, cs) else (False, s)
             | [] \<Rightarrow> (False, s));
          ip = takeWhile is_digit r;
          r1 = dropWhile is_digit r;
          (fp, r2) =
            (case r1 of
               c # cs \<Rightarrow> if c = CHR ''.'' then (takeWhile is_digit cs, dropWhile is_digit cs)
                         else ([], r1)
             | [] \<Rightarrow> ([], r1))
      in if r2 = [] \<and> (ip \<noteq> [] \<or> fp \<noteq> []) then
           Inr ((if neg then - 1 else 1) *
                (real (nat_of_digits ip) + real (nat_of_digits fp) / 10 ^ length fp))
         else Inl ValueError)"

text \<open>
  \<open>re.split(r'(?=[-+])', s)\<close>: the string is cut before every sign, also before a
  sign at position 0, which leaves an empty first piece. \<open>cur\<close> is the piece being read.
\<close>

fun split_signs :: "string \<Rightarrow> string \<Rightarrow> string list" where
  "split_signs cur [] = [cur]"
| "split_signs cur (c # cs) =
     (if is_sign c then cur # split_signs [c] cs else split_signs (cur @ [c]) cs)"

text \<open>
  \<open>re.match(r'([-+]?\d*(?:\.\d+)?)x\^?(\d*)', term)\<close>, returning groups 1 and 2.
  Signs, digits, the point and \<open>x\<close> are pairwise different characters, so the greedy
  reading is the only one that can reach the \<open>x\<close>, and backtracking never finds another
  match. The match is anchored at the start only: what follows group 2 is ignored.
\<close>

definition match_term :: "string \<Rightarrow> (string \<times> string) option" where
  "match_term t =
     (let (sign, r0) =
            (case t of c # cs \<Rightarrow> if is_sign c then ([c], cs) else ([], t) | [] \<Rightarrow> ([], t));
          ds = takeWhile is_digit r0;
          r1 = dropWhile is_digit r0;
          (frac, r2) =
            (case r1 of
               c # cs \<Rightarrow>
                 if c = CHR ''.'' \<and> takeWhile is_digit cs \<noteq> []
                 then (c # takeWhile is_digit cs, dropWhile is_digit cs) else ([], r1)
             | [] \<Rightarrow> ([], r1))
      in case r2 of
           c # r3 \<Rightarrow>
             if c = CHR ''x'' then
               (let r4 = (case r3 of d # cs \<Rightarrow> if d = CHR ''^'' then cs else r3 | [] \<Rightarrow> r3)
                in Some (sign @ ds @ frac, takeWhile is_digit r4))
             else None
         | [] \<Rightarrow> None)"

text \<open>The body of the \<open>for term in terms\<close> loop up to the call of \<open>add_term\<close>.\<close>

definition parse_term :: "string \<Rightarrow> error + (real \<times> nat)" where
  "parse_term term0 =
     (let t = py_strip term0 in
      case match_term t of
        Some (g1, g2) \<Rightarrow>
          (case py_float g1 of
             Inl err \<Rightarrow> Inl err
           | Inr coefficient \<Rightarrow>
               if g2 \<noteq> [] then
                 (case py_int g2 of
                    Inl err \<Rightarrow> Inl err
                  | Inr exponent \<Rightarrow> Inr (coefficient, exponent))
               else Inr (coefficient, 1))
      | None \<Rightarrow>
          (case py_float t of
             Inl err \<Rightarrow> Inl err
           | Inr coefficient \<Rightarrow> Inr (coefficient, 0)))"

fun parse_loop_list :: "list_terms \<Rightarrow> string list \<Rightarrow> error + list_terms" where
  "parse_loop_list terms [] = Inr terms"
| "parse_loop_list terms (t # ts) =
     (case parse_term t of
        Inl err \<Rightarrow> Inl err
      | Inr (coefficient, exponent) \<Rightarrow>
          (case add_term_list terms coefficient exponent of
             Inl err \<Rightarrow> Inl err
           | Inr terms' \<Rightarrow> parse_loop_list terms' ts))"

fun parse_loop_dict :: "dict_terms \<Rightarrow> string list \<Rightarrow> error + dict_terms" where
  "parse_loop_dict terms [] = Inr terms"
| "parse_loop_dict terms (t # ts) =
     (case parse_term t of
        Inl err \<Rightarrow> Inl err
      | Inr (coefficient, exponent) \<Rightarrow>
          (case add_term_dict terms coefficient exponent of
             Inl err \<Rightarrow> Inl err
           | Inr terms' \<Rightarrow> parse_loop_dict terms' ts))"

definition parse_polynomial_string_list :: "list_terms \<Rightarrow> string \<Rightarrow> error + list_terms" where
  "parse_polynomial_string_list terms polynomial_str =
     parse_loop_list terms (split_signs [] (filter (\<lambda>c. c \<noteq> CHR '' '') polynomial_str))"

definition parse_polynomial_string_dict :: "dict_terms \<Rightarrow> string \<Rightarrow> error + dict_terms" where
  "parse_polynomial_string_dict terms polynomial_str =
     parse_loop_dict terms (split_signs [] (filter (\<lambda>c. c \<noteq> CHR '' '') polynomial_str))"

text \<open>\<open>__init__\<close>: an empty string is falsy and leaves the polynomial empty.\<close>

definition init_list :: "string \<Rightarrow> error + list_terms" where
  "init_list polynomial_str =
     (if polynomial_str \<noteq> [] then parse_polynomial_string_list [] polynomial_str else Inr [])"

definition init_dict :: "string \<Rightarrow> error + dict_terms" where
  "init_dict polynomial_str =
     (if polynomial_str \<noteq> [] then parse_polynomial_string_dict [] polynomial_str else Inr [])"

subsection \<open>\<open>__str__\<close>\<close>

text \<open>
  The text Python prints for a float is not modelled: it is the parameter \<open>fmt\<close>.
  Exponents are integers and print in decimal.
\<close>

function str_nat :: "nat \<Rightarrow> string" where
  "str_nat n =
     (if n < 10 then [char_of (48 + n)] else str_nat (n div 10) @ [char_of (48 + n mod 10)])"
  by pat_completeness auto
termination
  by (relation "measure (\<lambda>n. n)") auto

declare str_nat.simps [simp del]

definition term_str :: "(real \<Rightarrow> string) \<Rightarrow> real \<Rightarrow> nat \<Rightarrow> string" where
  "term_str fmt coeff exponent =
     (if exponent > 0 then fmt coeff @ ''x^'' @ str_nat exponent else fmt coeff)"

fun join :: "string \<Rightarrow> string list \<Rightarrow> string" where
  "join sep [] = []"
| "join sep [s] = s"
| "join sep (s # ss) = s @ sep @ join sep ss"

definition str_list :: "(real \<Rightarrow> string) \<Rightarrow> list_terms \<Rightarrow> string" where
  "str_list fmt terms =
     join '' + '' (rev (map (\<lambda>(coeff, exponent). term_str fmt coeff exponent) terms))"

definition str_dict :: "(real \<Rightarrow> string) \<Rightarrow> dict_terms \<Rightarrow> string" where
  "str_dict fmt terms =
     join '' + '' (map (\<lambda>(exponent, coeff). term_str fmt coeff exponent) terms)"

subsection \<open>Specification functions\<close>

text \<open>
  What \<open>add_term(c, e)\<close> is to do to a term whose exponent is \<open>e\<close>: add \<open>c\<close> to its
  coefficient and keep it; any other term is left as it is.
\<close>

definition accumulate :: "real \<Rightarrow> nat \<Rightarrow> real \<times> nat \<Rightarrow> real \<times> nat" where
  "accumulate c e t = (if snd t = e then (fst t + c, snd t) else t)"

definition accumulate_item :: "real \<Rightarrow> nat \<Rightarrow> nat \<times> real \<Rightarrow> nat \<times> real" where
  "accumulate_item c e t = (if fst t = e then (fst t, snd t + c) else t)"

text \<open>A sequence of \<open>add_term\<close> calls on one polynomial, each given as (coefficient, exponent).\<close>

fun add_term_calls_list :: "list_terms \<Rightarrow> (real \<times> nat) list \<Rightarrow> error + list_terms" where
  "add_term_calls_list terms [] = Inr terms"
| "add_term_calls_list terms ((c, e) # calls) =
     (case add_term_list terms c e of
        Inl err \<Rightarrow> Inl err
      | Inr terms' \<Rightarrow> add_term_calls_list terms' calls)"

section \<open>Properties\<close>

subsection \<open>Binary search\<close>

lemma py_index_in_range:
  "0 \<le> i \<Longrightarrow> i < int (length xs) \<Longrightarrow> py_index xs i = Inr (nat i)"
  by (simp add: py_index_def Let_def)

lemma py_insert_in_range:
  "0 \<le> i \<Longrightarrow> i \<le> int (length xs) \<Longrightarrow> py_insert xs i x = take (nat i) xs @ x # drop (nat i) xs"
  by (simp add: py_insert_def Let_def min_def)

lemma mid_bounds: "(left::int) \<le> right \<Longrightarrow> left \<le> (left + right) div 2 \<and> (left + right) div 2 \<le> right"
  by presburger

lemma add_term_loop_total:
  "0 \<le> left \<Longrightarrow> right < int (length terms) \<Longrightarrow>
   \<exists>ts'. add_term_loop terms c e left right = Inr ts'"
proof (induction terms c e left right rule: add_term_loop.induct)
  case (1 terms c e left right)
  show ?case
  proof (cases "left \<le> right")
    case False
    then show ?thesis by (simp add: add_term_loop.simps)
  next
    case True
    define mid where "mid = (left + right) div 2"
    have mb: "left \<le> mid" "mid \<le> right" using mid_bounds[OF True] by (simp_all add: mid_def)
    have idx: "py_index terms mid = Inr (nat mid)"
      using mb "1.prems" by (intro py_index_in_range) auto
    show ?thesis
    proof (cases "snd (terms ! nat mid) = e")
      case True
      with \<open>left \<le> right\<close> idx show ?thesis
        by (subst add_term_loop.simps) (simp add: mid_def[symmetric])
    next
      case ne: False
      show ?thesis
      proof (cases "snd (terms ! nat mid) < e")
        case lt: True
        have "\<exists>ts'. add_term_loop terms c e (mid + 1) right = Inr ts'"
          using "1.IH"(1)[OF True mid_def idx ne lt] mb "1.prems" by simp
        with True idx ne lt show ?thesis
          by (subst add_term_loop.simps) (simp add: mid_def[symmetric])
      next
        case ge: False
        have "\<exists>ts'. add_term_loop terms c e left (mid - 1) = Inr ts'"
          using "1.IH"(2)[OF True mid_def idx ne ge] mb "1.prems" by simp
        with True idx ne ge show ?thesis
          by (subst add_term_loop.simps) (simp add: mid_def[symmetric])
      qed
    qed
  qed
qed

lemma filter_eq_take:
  assumes "n \<le> length xs" "\<forall>k<n. P (xs ! k)" "\<forall>k. n \<le> k \<longrightarrow> k < length xs \<longrightarrow> \<not> P (xs ! k)"
  shows "filter P xs = take n xs"
proof -
  have a: "filter P (take n xs) = take n xs"
    using assms by (auto simp: filter_id_conv in_set_conv_nth)
  have b: "filter P (drop n xs) = []"
    using assms by (auto simp: filter_empty_conv in_set_conv_nth)
  have "filter P xs = filter P (take n xs @ drop n xs)" by simp
  also have "\<dots> = take n xs" unfolding filter_append a b by simp
  finally show ?thesis .
qed

lemma filter_eq_drop:
  assumes "n \<le> length xs" "\<forall>k<n. \<not> P (xs ! k)" "\<forall>k. n \<le> k \<longrightarrow> k < length xs \<longrightarrow> P (xs ! k)"
  shows "filter P xs = drop n xs"
proof -
  have a: "filter P (take n xs) = []"
    using assms by (auto simp: filter_empty_conv in_set_conv_nth)
  have b: "filter P (drop n xs) = drop n xs"
    using assms by (auto simp: filter_id_conv in_set_conv_nth)
  have "filter P xs = filter P (take n xs @ drop n xs)" by simp
  also have "\<dots> = drop n xs" unfolding filter_append a b by simp
  finally show ?thesis .
qed

lemma strict_sorted_distinct: "sorted_wrt (<) (map snd (ts :: list_terms)) \<Longrightarrow> distinct (map snd ts)"
  using strict_sorted_iff by blast

lemma strict_sorted_nth_less:
  "sorted_wrt (<) (map snd (ts :: list_terms)) \<Longrightarrow> i < j \<Longrightarrow> j < length ts \<Longrightarrow> snd (ts ! i) < snd (ts ! j)"
  using sorted_wrt_nth_less[of "(<)" "map snd ts" i j] by simp

lemma update_eq_map_accumulate:
  assumes "sorted_wrt (<) (map snd ts)" "m < length ts" "snd (ts ! m) = e"
  shows "ts[m := (fst (ts ! m) + c, snd (ts ! m))] = map (accumulate c e) ts"
proof (rule nth_equalityI)
  show "length (ts[m := (fst (ts ! m) + c, snd (ts ! m))]) = length (map (accumulate c e) ts)" by simp
next
  fix i assume "i < length (ts[m := (fst (ts ! m) + c, snd (ts ! m))])"
  then have i: "i < length ts" by simp
  have d: "distinct (map snd ts)" using assms(1) by (rule strict_sorted_distinct)
  show "ts[m := (fst (ts ! m) + c, snd (ts ! m))] ! i = map (accumulate c e) ts ! i"
  proof (cases "i = m")
    case True
    then show ?thesis using assms i by (simp add: accumulate_def)
  next
    case False
    have "map snd ts ! i \<noteq> map snd ts ! m"
      using d i assms(2) False nth_eq_iff_index_eq[of "map snd ts" i m] by simp
    then have "snd (ts ! i) \<noteq> e" using i assms by simp
    then show ?thesis using False i by (simp add: accumulate_def)
  qed
qed

lemma add_term_loop_sorted:
  assumes "sorted_wrt (<) (map snd terms)"
    and "0 \<le> left" and "right < int (length terms)" and "left \<le> right + 1"
    and "\<forall>k. k < nat left \<longrightarrow> snd (terms ! k) < e"
    and "\<forall>k. nat (right + 1) \<le> k \<longrightarrow> k < length terms \<longrightarrow> e < snd (terms ! k)"
  shows "add_term_loop terms c e left right =
     Inr (if e \<in> snd ` set terms then map (accumulate c e) terms
          else filter (\<lambda>t. snd t < e) terms @ (c, e) # filter (\<lambda>t. e < snd t) terms)"
  using assms
proof (induction terms c e left right rule: add_term_loop.induct)
  case (1 terms c e left right)
  note srt = "1.prems"(1) and lo = "1.prems"(5) and hi = "1.prems"(6)
  show ?case
  proof (cases "left \<le> right")
    case False
    with "1.prems" have lr: "right + 1 = left" by simp
    have n: "nat left \<le> length terms" using "1.prems" lr by simp
    have hi': "\<forall>k. nat left \<le> k \<longrightarrow> k < length terms \<longrightarrow> e < snd (terms ! k)"
      using hi lr by simp
    have notin: "e \<notin> snd ` set terms"
    proof
      assume "e \<in> snd ` set terms"
      then obtain k where k: "k < length terms" "snd (terms ! k) = e"
        by (auto simp: in_set_conv_nth)
      show False
      proof (cases "k < nat left")
        case True then show ?thesis using lo k by auto
      next
        case False
        then have "nat left \<le> k" by simp
        then have "e < snd (terms ! k)" using hi' k(1) by blast
        then show ?thesis using k(2) by simp
      qed
    qed
    have f1: "filter (\<lambda>t. snd t < e) terms = take (nat left) terms"
      using n lo hi' by (intro filter_eq_take) (auto simp: not_less dest: less_imp_le)
    have f2: "filter (\<lambda>t. e < snd t) terms = drop (nat left) terms"
      using n lo hi' by (intro filter_eq_drop) (auto simp: not_less dest: less_imp_le)
    have ins: "py_insert terms left (c, e) = take (nat left) terms @ (c, e) # drop (nat left) terms"
      using "1.prems" lr by (intro py_insert_in_range) auto
    show ?thesis using False notin f1 f2 ins
      by (subst add_term_loop.simps) simp
  next
    case True
    define mid where "mid = (left + right) div 2"
    have mb: "left \<le> mid" "mid \<le> right" using mid_bounds[OF True] by (simp_all add: mid_def)
    have idx: "py_index terms mid = Inr (nat mid)"
      using mb "1.prems" by (intro py_index_in_range) auto
    have m: "nat mid < length terms" using mb "1.prems" by auto
    show ?thesis
    proof (cases "snd (terms ! nat mid) = e")
      case eq: True
      have inset: "e \<in> snd ` set terms" using m eq by (metis image_eqI nth_mem)
      have "terms[nat mid := (fst (terms ! nat mid) + c, snd (terms ! nat mid))] = map (accumulate c e) terms"
        using srt m eq by (rule update_eq_map_accumulate)
      with True idx eq inset show ?thesis
        by (subst add_term_loop.simps) (simp add: mid_def[symmetric])
    next
      case ne: False
      show ?thesis
      proof (cases "snd (terms ! nat mid) < e")
        case lt: True
        have lo': "\<forall>k. k < nat (mid + 1) \<longrightarrow> snd (terms ! k) < e"
        proof (intro allI impI)
          fix k assume k: "k < nat (mid + 1)"
          show "snd (terms ! k) < e"
          proof (cases "k = nat mid")
            case True then show ?thesis using lt by simp
          next
            case False
            with k mb "1.prems" have "k < nat mid" by auto
            then have "snd (terms ! k) < snd (terms ! nat mid)"
              using srt m by (intro strict_sorted_nth_less)
            then show ?thesis using lt by simp
          qed
        qed
        have "add_term_loop terms c e (mid + 1) right =
          Inr (if e \<in> snd ` set terms then map (accumulate c e) terms
          else filter (\<lambda>t. snd t < e) terms @ (c, e) # filter (\<lambda>t. e < snd t) terms)"
          using "1.IH"(1)[OF True mid_def idx ne lt srt _ _ _ lo' hi] mb "1.prems" by simp
        with True idx ne lt show ?thesis
          by (subst add_term_loop.simps) (simp add: mid_def[symmetric])
      next
        case ge: False
        with ne have gt: "e < snd (terms ! nat mid)" by simp
        have hi': "\<forall>k. nat (mid - 1 + 1) \<le> k \<longrightarrow> k < length terms \<longrightarrow> e < snd (terms ! k)"
        proof (intro allI impI)
          fix k assume k: "nat (mid - 1 + 1) \<le> k" "k < length terms"
          show "e < snd (terms ! k)"
          proof (cases "k = nat mid")
            case True then show ?thesis using gt by simp
          next
            case False
            with k have "nat mid < k" by auto
            then have "snd (terms ! nat mid) < snd (terms ! k)"
              using srt k by (intro strict_sorted_nth_less)
            then show ?thesis using gt by simp
          qed
        qed
        have "add_term_loop terms c e left (mid - 1) =
          Inr (if e \<in> snd ` set terms then map (accumulate c e) terms
          else filter (\<lambda>t. snd t < e) terms @ (c, e) # filter (\<lambda>t. e < snd t) terms)"
          using "1.IH"(2)[OF True mid_def idx ne ge srt _ _ _ lo hi'] mb "1.prems" by simp
        with True idx ne ge show ?thesis
          by (subst add_term_loop.simps) (simp add: mid_def[symmetric])
      qed
    qed
  qed
qed

lemma find_coefficient_loop_absent:
  "0 \<le> left \<Longrightarrow> right < int (length terms) \<Longrightarrow> n \<notin> snd ` set terms \<Longrightarrow>
   find_coefficient_loop terms n left right = Inr 0"
proof (induction terms n left right rule: find_coefficient_loop.induct)
  case (1 terms n left right)
  show ?case
  proof (cases "left \<le> right")
    case False
    then show ?thesis by (simp add: find_coefficient_loop.simps)
  next
    case True
    define mid where "mid = (left + right) div 2"
    have mb: "left \<le> mid" "mid \<le> right" using mid_bounds[OF True] by (simp_all add: mid_def)
    have idx: "py_index terms mid = Inr (nat mid)"
      using mb "1.prems" by (intro py_index_in_range) auto
    have "nat mid < length terms" using mb "1.prems" by auto
    then have ne: "snd (terms ! nat mid) \<noteq> n"
      using "1.prems"(3) by (metis image_eqI nth_mem)
    show ?thesis
    proof (cases "snd (terms ! nat mid) < n")
      case lt: True
      have "find_coefficient_loop terms n (mid + 1) right = Inr 0"
        using "1.IH"(1)[OF True mid_def idx ne lt] mb "1.prems" by simp
      with True idx ne lt show ?thesis
        by (subst find_coefficient_loop.simps) (simp add: mid_def[symmetric])
    next
      case ge: False
      have "find_coefficient_loop terms n left (mid - 1) = Inr 0"
        using "1.IH"(2)[OF True mid_def idx ne ge] mb "1.prems" by simp
      with True idx ne ge show ?thesis
        by (subst find_coefficient_loop.simps) (simp add: mid_def[symmetric])
    qed
  qed
qed

lemma add_term_list_sorted:
  assumes "sorted_wrt (<) (map snd terms)" "c \<noteq> 0"
  shows "add_term_list terms c e =
     Inr (if e \<in> snd ` set terms then map (accumulate c e) terms
          else filter (\<lambda>t. snd t < e) terms @ (c, e) # filter (\<lambda>t. e < snd t) terms)"
proof -
  have "add_term_loop terms c e 0 (int (length terms) - 1) =
     Inr (if e \<in> snd ` set terms then map (accumulate c e) terms
          else filter (\<lambda>t. snd t < e) terms @ (c, e) # filter (\<lambda>t. e < snd t) terms)"
    by (rule add_term_loop_sorted) (use assms(1) in auto)
  then show ?thesis unfolding add_term_list_def if_P[OF assms(2)] .
qed

lemma map_snd_accumulate: "map snd (map (accumulate c e) ts) = map snd ts"
  by (induction ts) (auto simp: accumulate_def)

lemma sorted_insert_split:
  assumes "sorted_wrt (<) (map snd (ts :: list_terms))"
  shows "sorted_wrt (<) (map snd (filter (\<lambda>t. snd t < e) ts @ (c, e) # filter (\<lambda>t. e < snd t) ts))"
proof -
  have a: "sorted_wrt (<) (map snd (filter (\<lambda>t. snd t < e) ts))"
    using assms by (induction ts) auto
  have b: "sorted_wrt (<) (map snd (filter (\<lambda>t. e < snd t) ts))"
    using assms by (induction ts) auto
  show ?thesis using a b by (auto simp: sorted_wrt_append)
qed

lemma add_term_list_ascending:
  assumes "sorted_wrt (<) (map snd terms)"
  shows "\<exists>terms'. add_term_list terms c e = Inr terms' \<and> sorted_wrt (<) (map snd terms')"
proof (cases "c = 0")
  case True
  then show ?thesis using assms by (simp add: add_term_list_def)
next
  case False
  note eq = add_term_list_sorted[OF assms False, of e]
  show ?thesis
  proof (cases "e \<in> snd ` set terms")
    case True
    then have "add_term_list terms c e = Inr (map (accumulate c e) terms)"
      using eq by simp
    moreover have "sorted_wrt (<) (map snd (map (accumulate c e) terms))"
      using assms by (simp only: map_snd_accumulate)
    ultimately show ?thesis by blast
  next
    case False
    then have "add_term_list terms c e =
        Inr (filter (\<lambda>t. snd t < e) terms @ (c, e) # filter (\<lambda>t. e < snd t) terms)"
      using eq by simp
    then show ?thesis using sorted_insert_split[OF assms, of e c] by simp
  qed
qed

subsection \<open>Accumulation\<close>

lemma add_term_calls_list_ascending:
  "sorted_wrt (<) (map snd terms) \<Longrightarrow>
   \<exists>terms'. add_term_calls_list terms calls = Inr terms' \<and> sorted_wrt (<) (map snd terms')"
proof (induction calls arbitrary: terms)
  case Nil
  then show ?case by simp
next
  case (Cons call calls)
  obtain c e where call: "call = (c, e)" by (cases call)
  from add_term_list_ascending[OF Cons.prems, of c e]
  obtain terms1 where t1: "add_term_list terms c e = Inr terms1" "sorted_wrt (<) (map snd terms1)"
    by blast
  from Cons.IH[OF t1(2)] show ?case using t1(1) call by simp
qed

lemma dict_set_accumulate:
  "distinct (map fst d) \<Longrightarrow> map_of d e = Some v \<Longrightarrow>
   dict_set d e (v + c) = map (accumulate_item c e) d"
proof (induction d)
  case Nil
  then show ?case by simp
next
  case (Cons p d)
  obtain k w where p: "p = (k, w)" by (cases p)
  show ?case
  proof (cases "k = e")
    case True
    with Cons.prems p have "w = v" by simp
    have "e \<notin> fst ` set d" using Cons.prems(1) p True by simp
    then have "map (accumulate_item c e) d = d"
      by (induction d) (auto simp: accumulate_item_def)
    moreover have "accumulate_item c e (e, v) = (e, v + c)"
      by (simp add: accumulate_item_def)
    ultimately show ?thesis using True p \<open>w = v\<close> by simp
  next
    case False
    then show ?thesis using Cons p by (simp add: accumulate_item_def)
  qed
qed

subsection \<open>Evaluation\<close>






subsection \<open>Addition\<close>

lemma add_term_list_total: "\<exists>terms'. add_term_list terms c e = Inr terms'"
  unfolding add_term_list_def using add_term_loop_total[of 0 "int (length terms) - 1" terms c e]
  by simp

lemma merge_loop_total:
  "\<exists>result' i' j'. merge_loop self other result i j = Inr (result', i', j')"
proof (induction self other result i j rule: merge_loop.induct)
  case (1 self other result i j)
  show ?case
  proof (cases "i < length self \<and> j < length other")
    case False
    have "merge_loop self other result i j = Inr (result, i, j)"
      by (subst merge_loop.simps) (simp only: False if_False)
    then show ?thesis by blast
  next
    case True
    obtain coeff1 exp1 where s: "self ! i = (coeff1, exp1)" by (cases "self ! i")
    obtain coeff2 exp2 where t: "other ! j = (coeff2, exp2)" by (cases "other ! j")
    show ?thesis
    proof (cases "exp1 = exp2")
      case eq: True
      obtain r where r: "add_term_list result (coeff1 + coeff2) exp1 = Inr r"
        using add_term_list_total by blast
      from "1.IH"(1)[OF True s[symmetric] refl t[symmetric] refl eq r]
      show ?thesis using True s t eq r by (subst merge_loop.simps) simp
    next
      case ne: False
      show ?thesis
      proof (cases "exp1 < exp2")
        case lt: True
        obtain r where r: "add_term_list result coeff1 exp1 = Inr r"
          using add_term_list_total by blast
        from "1.IH"(2)[OF True s[symmetric] refl t[symmetric] refl ne lt r]
        show ?thesis using True s t ne lt r by (subst merge_loop.simps) simp
      next
        case ge: False
        obtain r where r: "add_term_list result coeff2 exp2 = Inr r"
          using add_term_list_total by blast
        from "1.IH"(3)[OF True s[symmetric] refl t[symmetric] refl ne ge r]
        show ?thesis using True s t ne ge r by (subst merge_loop.simps) simp
      qed
    qed
  qed
qed

lemma add_list_raises: "add_list self other = Inl TypeError"
proof (cases other)
  case (ListPoly other_terms)
  obtain result i j where m: "merge_loop self other_terms [] 0 0 = Inr (result, i, j)"
    using merge_loop_total by blast
  have "add_list result (PyList (drop i self @ drop j other_terms)) = Inl TypeError"
    by (subst add_list.simps) simp
  then show ?thesis using ListPoly m by (subst add_list.simps) simp
qed (simp_all add: add_list.simps)

subsection \<open>Parsing tokens without coefficient digits\<close>

lemma dropWhile_snoc_keep: "\<not> P c \<Longrightarrow> dropWhile P (xs @ [c]) = dropWhile P xs @ [c]"
  by (induction xs) auto

lemma py_strip_head:
  "\<not> is_space c \<Longrightarrow> py_strip (c # cs) = c # rev (dropWhile is_space (rev cs))"
  by (simp add: py_strip_def dropWhile_snoc_keep)

lemma rstrip_head:
  "\<not> is_space c \<Longrightarrow> rev (dropWhile is_space (rev (c # cs))) = c # rev (dropWhile is_space (rev cs))"
  by (simp add: dropWhile_snoc_keep)

lemma char_facts:
  "\<not> is_space CHR ''x''" "\<not> is_space CHR ''+''" "\<not> is_space CHR ''-''"
  "\<not> is_digit CHR ''x''" "\<not> is_sign CHR ''x''" "is_sign CHR ''+''" "is_sign CHR ''-''"
  by (simp_all add: is_space_def is_digit_def is_sign_def)

lemma py_float_no_digits:
  "py_float [] = Inl ValueError" "py_float ''+'' = Inl ValueError" "py_float ''-'' = Inl ValueError"
  by (simp_all add: py_float_def)

lemma match_term_bare_x:
  "\<exists>g2. match_term (CHR ''x'' # r) = Some ([], g2)"
  by (simp add: match_term_def char_facts Let_def)

lemma match_term_signed_x:
  "is_sign c \<Longrightarrow> \<exists>g2. match_term (c # CHR ''x'' # r) = Some ([c], g2)"
  by (simp add: match_term_def char_facts Let_def)

lemma parse_term_no_coefficient:
  "parse_term (CHR ''x'' # rest) = Inl ValueError"
  "parse_term (CHR ''+'' # CHR ''x'' # rest) = Inl ValueError"
  "parse_term (CHR ''-'' # CHR ''x'' # rest) = Inl ValueError"
proof -
  let ?r = "rev (dropWhile is_space (rev rest))"
  obtain g where "match_term (CHR ''x'' # ?r) = Some ([], g)"
    using match_term_bare_x by blast
  then show "parse_term (CHR ''x'' # rest) = Inl ValueError"
    by (simp add: parse_term_def py_strip_head char_facts py_float_no_digits)
  obtain g where "match_term (CHR ''+'' # CHR ''x'' # ?r) = Some (''+'', g)"
    using match_term_signed_x[of "CHR ''+''"] char_facts by blast
  then show "parse_term (CHR ''+'' # CHR ''x'' # rest) = Inl ValueError"
    by (simp add: parse_term_def py_strip_head rstrip_head char_facts py_float_no_digits del: rev.simps)
  obtain g where "match_term (CHR ''-'' # CHR ''x'' # ?r) = Some (''-'', g)"
    using match_term_signed_x[of "CHR ''-''"] char_facts by blast
  then show "parse_term (CHR ''-'' # CHR ''x'' # rest) = Inl ValueError"
    by (simp add: parse_term_def py_strip_head rstrip_head char_facts py_float_no_digits del: rev.simps)
qed

section \<open>The claims\<close>

text \<open>
  C1. The ordered \<open>__add__\<close> is to return a new polynomial: the two-pointer merge of both
  term lists, with the rest of the longer one appended. What the code does: after the
  merge loop, \<open>result += self.terms[i:] + other.terms[j:]\<close> calls \<open>__add__\<close> on
  \<open>result\<close> with a plain list, and the \<open>isinstance\<close> check of that call raises
  TypeError. So \<open>__add__\<close> of with_2d_list.py raises TypeError for every pair of
  polynomials and never returns one.
\<close>

theorem add_list_always_raises: "add_list self (ListPoly other_terms) = Inl TypeError"
  by (rule add_list_raises)

text \<open>
  C2. The string \<open>2.1x^8 + 30x^9 + 3x + 10 + 10x^9 + 1 - 10\<close> constructs the terms
  8: 2.1, 9: 40, 1: 3, 0: 1, in ascending order of exponent in with_2d_list.py and in
  order of first insertion in with_dict.py, and \<open>find_coefficient(9)\<close> returns 40 on
  both.
\<close>

theorem parse_scenario:
  "init_list ''2.1x^8 + 30x^9 + 3x + 10 + 10x^9 + 1 - 10'' =
     Inr [(1, 0), (3, 1), (21 / 10, 8), (40, 9)] \<and>
   init_dict ''2.1x^8 + 30x^9 + 3x + 10 + 10x^9 + 1 - 10'' =
     Inr [(8, 21 / 10), (9, 40), (1, 3), (0, 1)] \<and>
   find_coefficient_list [(1, 0), (3, 1), (21 / 10, 8), (40, 9)] 9 = Inr 40 \<and>
   find_coefficient_dict [(8, 21 / 10), (9, 40), (1, 3), (0, 1)] 9 = Inr 40"
  by code_simp

text \<open>
  C3. A token with \<open>x\<close> and no coefficient digits is to parse with coefficient 1 (or -1
  after a minus). What the code does: the pattern matches with group 1 empty or a lone
  sign, and \<open>float\<close> of that group raises ValueError, for every token that starts with
  \<open>x\<close>, \<open>+x\<close> or \<open>-x\<close>, so constructing a polynomial from such text fails. The
  default exponent 1 is in the code and is reached when the coefficient has digits.
\<close>

theorem parse_no_coefficient_raises:
  "parse_term (CHR ''x'' # rest) = Inl ValueError \<and>
   parse_term (CHR ''+'' # CHR ''x'' # rest) = Inl ValueError \<and>
   parse_term (CHR ''-'' # CHR ''x'' # rest) = Inl ValueError \<and>
   init_list ''x'' = Inl ValueError \<and> init_dict ''x'' = Inl ValueError \<and>
   init_list ''2x^2 + x^3'' = Inl ValueError \<and> init_dict ''2x^2 - x'' = Inl ValueError \<and>
   parse_term ''3x'' = Inr (3, 1)"
proof -
  have "init_list ''x'' = Inl ValueError \<and> init_dict ''x'' = Inl ValueError \<and>
    init_list ''2x^2 + x^3'' = Inl ValueError \<and> init_dict ''2x^2 - x'' = Inl ValueError \<and>
    parse_term ''3x'' = Inr (3, 1)"
    by code_simp
  then show ?thesis using parse_term_no_coefficient[of rest] by simp
qed

text \<open>
  C4. For every exponent \<open>e\<close> that no stored term has, \<open>find_coefficient(e)\<close> of
  with_2d_list.py returns 0 and raises nothing, whatever the list holds, and
  \<open>find_coefficient(e)\<close> of with_dict.py raises KeyError.
\<close>

theorem find_coefficient_absent:
  "(e \<notin> snd ` set terms \<longrightarrow> find_coefficient_list terms e = Inr 0) \<and>
   (e \<notin> fst ` set d \<longrightarrow> find_coefficient_dict d e = Inl (KeyError e))"
proof (intro conjI impI)
  assume "e \<notin> snd ` set terms"
  then show "find_coefficient_list terms e = Inr 0"
    unfolding find_coefficient_list_def by (intro find_coefficient_loop_absent) auto
next
  assume "e \<notin> fst ` set d"
  then have "map_of d e = None" by (simp add: map_of_eq_None_iff)
  then show "find_coefficient_dict d e = Inl (KeyError e)"
    by (simp add: find_coefficient_dict_def dict_get_def)
qed

theorem find_coefficient_absent_witness:
  "(5::nat) \<notin> snd ` set [(1::real, 0::nat), (3, 1), (4, 7)] \<and>
   find_coefficient_list [(1, 0), (3, 1), (4, 7)] 5 = Inr 0 \<and>
   (5::nat) \<notin> fst ` set [(7::nat, 4::real), (0, 1)] \<and>
   find_coefficient_dict [(7, 4), (0, 1)] 5 = Inl (KeyError 5)"
  using find_coefficient_absent [of 5 "[(1, 0), (3, 1), (4, 7)]" "[(7, 4), (0, 1)]"] by simp

text \<open>
  C5. \<open>add_term(c, e)\<close> with \<open>c\<close> not 0, on a polynomial that has a term with exponent
  \<open>e\<close>, adds \<open>c\<close> to that term's coefficient and changes nothing else: the result is the
  old collection with \<open>accumulate\<close> applied to every term, so it has the same length and
  the same exponents, and the term stays stored when its coefficient becomes 0. The list
  is in strictly ascending order of exponent, as every list built by \<open>add_term\<close> is; the
  keys of a dict are distinct.
\<close>

theorem add_term_accumulates:
  "c \<noteq> 0 \<longrightarrow>
   (sorted_wrt (<) (map snd terms) \<and> e \<in> snd ` set terms \<longrightarrow>
      add_term_list terms c e = Inr (map (accumulate c e) terms)) \<and>
   (distinct (map fst d) \<and> e \<in> fst ` set d \<longrightarrow>
      add_term_dict d c e = Inr (map (accumulate_item c e) d))"
proof (intro impI conjI)
  assume c: "c \<noteq> 0" and "sorted_wrt (<) (map snd terms) \<and> e \<in> snd ` set terms"
  then show "add_term_list terms c e = Inr (map (accumulate c e) terms)"
    using add_term_list_sorted[of terms c e] by simp
next
  assume c: "c \<noteq> 0" and h: "distinct (map fst d) \<and> e \<in> fst ` set d"
  then obtain v where "(e, v) \<in> set d" by auto
  with h have v: "map_of d e = Some v" by simp
  have "dict_contains d e" using h by (simp add: dict_contains_def)
  then show "add_term_dict d c e = Inr (map (accumulate_item c e) d)"
    using c v dict_set_accumulate[of d e v c] h by (simp add: add_term_dict_def dict_get_def)
qed

theorem add_term_accumulates_witness:
  "add_term_list [(1, 0), (5, 2), (4, 7)] (- 5) 2 = Inr [(1, 0), (0, 2), (4, 7)] \<and>
   add_term_dict [(7, 4), (2, 5), (0, 1)] (- 5) 2 = Inr [(7, 4), (2, 0), (0, 1)]"
  using add_term_accumulates [of "- 5" "[(1, 0), (5, 2), (4, 7)]" 2 "[(7, 4), (2, 5), (0, 1)]"]
  by (simp add: accumulate_def accumulate_item_def)

text \<open>
  C6. \<open>add_term(0, e)\<close> leaves the term collection as it is, in both modules: nothing is
  inserted and no coefficient changes.
\<close>

theorem add_term_zero_noop:
  "add_term_list terms 0 e = Inr terms \<and> add_term_dict d 0 e = Inr d"
  by (simp add: add_term_list_def add_term_dict_def)

text \<open>
  C7. In with_2d_list.py, any sequence of \<open>add_term\<close> calls on an empty polynomial
  succeeds and leaves the exponents in strictly ascending order, hence pairwise distinct;
  and one \<open>add_term\<close> call on any list in strictly ascending order succeeds and leaves
  it so.
\<close>

theorem add_term_keeps_ascending:
  "(\<exists>terms. add_term_calls_list [] calls = Inr terms \<and>
      sorted_wrt (<) (map snd terms) \<and> distinct (map snd terms)) \<and>
   (sorted_wrt (<) (map snd terms0) \<longrightarrow>
      (\<exists>terms'. add_term_list terms0 c e = Inr terms' \<and>
         sorted_wrt (<) (map snd terms') \<and> distinct (map snd terms')))"
proof (intro conjI impI)
  have "sorted_wrt (<) (map snd ([] :: list_terms))" by simp
  from add_term_calls_list_ascending[OF this, of calls]
  show "\<exists>terms. add_term_calls_list [] calls = Inr terms \<and>
      sorted_wrt (<) (map snd terms) \<and> distinct (map snd terms)"
    using strict_sorted_distinct by blast
next
  assume "sorted_wrt (<) (map snd terms0)"
  from add_term_list_ascending[OF this, of c e]
  show "\<exists>terms'. add_term_list terms0 c e = Inr terms' \<and>
         sorted_wrt (<) (map snd terms') \<and> distinct (map snd terms')"
    using strict_sorted_distinct by blast
qed

theorem add_term_keeps_ascending_witness:
  "sorted_wrt (<) (map snd [(1::real, 0::nat), (3, 2), (4, 7)]) \<and>
   add_term_list [(1, 0), (3, 2), (4, 7)] 5 1 = Inr [(1, 0), (5, 1), (3, 2), (4, 7)] \<and>
   add_term_calls_list [] [(2, 8), (30, 9), (3, 1), (10, 9)] = Inr [(3, 1), (2, 8), (40, 9)]"
proof -
  have a: "add_term_list [(1, 0), (3, 2), (4, 7)] 5 1 = Inr [(1, 0), (5, 1), (3, 2), (4, 7)]"
    by code_simp
  have b: "add_term_calls_list [] [(2, 8), (30, 9), (3, 1), (10, 9)] = Inr [(3, 1), (2, 8), (40, 9)]"
    by code_simp
  show ?thesis
    using add_term_keeps_ascending [of "[(2, 8), (30, 9), (3, 1), (10, 9)]" "[(1, 0), (3, 2), (4, 7)]" 5 1] a b
    by simp
qed




text \<open>
  C9. The two modules are to give the same terms when they add the same two polynomials.
  What the code does on \<open>1 + 2x\<close> and \<open>3x\<close>: \<open>__add__\<close> of with_dict.py returns
  0: 1, 1: 5, and \<open>__add__\<close> of with_2d_list.py raises TypeError. Before it raises, its
  merge loop has also parted from the dict: on \<open>2x\<close> and \<open>-2x\<close> the loop passes the
  sum 0 to \<open>add_term\<close>, which stores nothing, where the dict keeps exponent 1 with
  coefficient 0.
\<close>

theorem add_strategies_differ:
  "init_list ''1 + 2x'' = Inr [(1, 0), (2, 1)] \<and> init_list ''3x'' = Inr [(3, 1)] \<and>
   init_dict ''1 + 2x'' = Inr [(0, 1), (1, 2)] \<and> init_dict ''3x'' = Inr [(1, 3)] \<and>
   add_list [(1, 0), (2, 1)] (ListPoly [(3, 1)]) = Inl TypeError \<and>
   add_dict [(0, 1), (1, 2)] (DictPoly [(1, 3)]) = Inr [(0, 1), (1, 5)] \<and>
   merge_loop [(2, 1)] [(- 2, 1)] [] 0 0 = Inr ([], 1, 1) \<and>
   add_dict [(1, 2)] (DictPoly [(1, - 2)]) = Inr [(1, 0)]"
  by code_simp

text \<open>
  C10. A polynomial with no terms prints as the empty string in both modules, and the
  polynomial constructed from no text has no terms.
\<close>

theorem str_empty:
  "str_list fmt [] = [] \<and> str_dict fmt [] = [] \<and>
   init_list [] = Inr [] \<and> init_dict [] = Inr []"
  by (simp add: str_list_def str_dict_def init_list_def init_dict_def)
end
